theory Spec2Isabelle
  imports Main
begin

section \<open>The login command of kite (cmd/kite/login/cmd.go)\<close>

text \<open>
  The handler of \<^verbatim>\<open>kite login\<close> loads the persisted configuration, acquires the
  PagerDuty API key and the GitHub access token, verifies the key against PagerDuty,
  resolves the default team and saves the configuration. Its collaborators
  (\<^verbatim>\<open>config.Load\<close>, \<^verbatim>\<open>config.Save\<close>, \<^verbatim>\<open>client.Connect\<close>, \<^verbatim>\<open>GetCurrentUser\<close>,
  \<^verbatim>\<open>teams.SelectTeam\<close>, standard input) live outside the file; the model takes their
  answers from an environment and records every call and every printed text in a trace.
\<close>

subsection \<open>Errors\<close>

text \<open>
  Go errors as values. \<open>EOF\<close> is \<^verbatim>\<open>io.EOF\<close>; \<open>ErrorString\<close> is an error that only
  carries a message (\<^verbatim>\<open>errors.New\<close>, \<^verbatim>\<open>fmt.Errorf\<close> without \<^verbatim>\<open>%w\<close>); \<open>APIError\<close> is
  \<^verbatim>\<open>pagerduty.APIError\<close> with its \<^verbatim>\<open>StatusCode\<close> and the rest of its detail as text;
  \<open>Wrapped\<close> is an error whose \<^verbatim>\<open>Unwrap\<close> gives another error.
\<close>

datatype error =
    EOF
  | ErrorString string
  | APIError int string
  | Wrapped string error

text \<open>
  \<^verbatim>\<open>errors.As(err, &apiError)\<close> with a target of type \<^verbatim>\<open>pagerduty.APIError\<close>: the first
  error of the chain that is an \<^verbatim>\<open>APIError\<close>, whatever its status code.
\<close>

fun errors_As_APIError :: "error \<Rightarrow> (int \<times> string) option" where
  "errors_As_APIError EOF = None"
| "errors_As_APIError (ErrorString m) = None"
| "errors_As_APIError (APIError code detail) = Some (code, detail)"
| "errors_As_APIError (Wrapped m e) = errors_As_APIError e"

subsection \<open>Formatting and strings\<close>

text \<open>The verb \<^verbatim>\<open>%v\<close> of \<^verbatim>\<open>fmt\<close> on an \<^verbatim>\<open>int\<close>: its decimal digits, with a sign if negative.\<close>

fun FormatUint :: "nat \<Rightarrow> string" where
  "FormatUint n =
     (if n < 10 then [''0123456789'' ! n]
      else FormatUint (n div 10) @ [''0123456789'' ! (n mod 10)])"

declare FormatUint.simps [simp del]

definition FormatInt :: "int \<Rightarrow> string" where
  "FormatInt i = (if i < 0 then CHR ''-'' # FormatUint (nat (- i)) else FormatUint (nat i))"

definition HasSuffix :: "string \<Rightarrow> string \<Rightarrow> bool" where
  "HasSuffix s suffix =
     (length suffix \<le> length s \<and> drop (length s - length suffix) s = suffix)"

definition TrimSuffix :: "string \<Rightarrow> string \<Rightarrow> string" where
  "TrimSuffix s suffix =
     (if HasSuffix s suffix then take (length s - length suffix) s else s)"

fun HasPrefix :: "string \<Rightarrow> string \<Rightarrow> bool" where
  "HasPrefix s [] = True"
| "HasPrefix [] (p # ps) = False"
| "HasPrefix (c # cs) (p # ps) = (c = p \<and> HasPrefix cs ps)"

text \<open>\<open>Contains s sub\<close>: \<open>sub\<close> occurs in \<open>s\<close> as a contiguous run of characters.\<close>

fun Contains :: "string \<Rightarrow> string \<Rightarrow> bool" where
  "Contains [] sub = (sub = [])"
| "Contains (c # cs) sub = (HasPrefix (c # cs) sub \<or> Contains cs sub)"

subsection \<open>The configuration record and the command's flags\<close>

text \<open>
  Modelled from the spec: the declaration of \<^verbatim>\<open>config.Config\<close> is in pkg/config, which
  is not part of the source at hand. The handler reads and writes the four fields below,
  and the spec's data model lists exactly these four (apiKey, accessToken, teamID,
  teamName), all strings, the empty string meaning "unset".
\<close>

record Config =
  ApiKey :: string
  AccessToken :: string
  TeamID :: string
  Team :: string

text \<open>\<^verbatim>\<open>new(config.Config)\<close>: the zero value.\<close>

definition new_Config :: Config where
  "new_Config = \<lparr>ApiKey = '''', AccessToken = '''', TeamID = '''', Team = ''''\<rparr>"

text \<open>The package variable \<^verbatim>\<open>loginArgs\<close>, filled by the flags --api-key and --access-token.\<close>

record loginArgs =
  apiKey :: string
  accessToken :: string

text \<open>Of \<^verbatim>\<open>pagerduty.User\<close> the handler reads the field \<^verbatim>\<open>Name\<close> only.\<close>

record User =
  Name :: string

subsection \<open>Standard input\<close>

text \<open>
  Standard input is the sequence of results of the successive \<^verbatim>\<open>Read\<close> calls on
  \<^verbatim>\<open>os.Stdin\<close>: a chunk of bytes (on a terminal, one line per call) or an error. After
  the last element every call gives \<^verbatim>\<open>io.EOF\<close>.
\<close>

datatype read = Data string | Fail error

text \<open>
  \<^verbatim>\<open>bufio.NewReader(os.Stdin).ReadString('\n')\<close> on a reader made for this one call: chunks
  are read until one holds the delimiter; the result is everything up to and including
  the first delimiter, with no error. When a read fails first, the result is what was read
  so far together with that error. What follows the delimiter inside the last chunk stays
  in the buffer of the reader, which is dropped with it. The first argument accumulates
  the chunks read so far.
\<close>

fun ReadString :: "string \<Rightarrow> read list \<Rightarrow> (string \<times> error option) \<times> read list" where
  "ReadString acc [] = ((acc, Some EOF), [])"
| "ReadString acc (Fail e # rest) = ((acc, Some e), rest)"
| "ReadString acc (Data d # rest) =
     (if CHR ''\<newline>'' \<in> set d
      then ((acc @ takeWhile (\<lambda>c. c \<noteq> CHR ''\<newline>'') d @ ''\<newline>'', None), rest)
      else ReadString (acc @ d) rest)"

subsection \<open>Environment, trace and state\<close>

text \<open>
  The answers of the collaborators in one run. \<open>config_Save E n c\<close> is the outcome of the
  call of \<^verbatim>\<open>config.Save\<close> on the record \<open>c\<close> that follows \<open>n\<close> earlier calls. The client
  handle returned by \<^verbatim>\<open>Connect\<close> is represented by the answers of its \<^verbatim>\<open>GetCurrentUser\<close>
  and of \<^verbatim>\<open>teams.SelectTeam\<close> on it; what the selector reads from standard input is
  part of its answer, and nothing reads standard input after it. \<open>APIKeyURL\<close> and
  \<open>AccessTokenURL\<close> are the constants of pkg/constants, whose values are not in the
  source at hand.
\<close>

record env =
  APIKeyURL :: string
  AccessTokenURL :: string
  config_Load :: "error + Config"
  config_Save :: "nat \<Rightarrow> Config \<Rightarrow> error option"
  client_Connect :: "error option"
  client_GetCurrentUser :: "error + User"
  teams_SelectTeam :: "error + string \<times> string"

datatype event =
    Load
  | Save Config
  | Print string
  | StdinRead
  | Connect
  | GetCurrentUser
  | SelectTeam

text \<open>The records passed to \<^verbatim>\<open>config.Save\<close>, in the order of the calls.\<close>

fun saved :: "event list \<Rightarrow> Config list" where
  "saved [] = []"
| "saved (Save c # es) = c # saved es"
| "saved (e # es) = saved es"

text \<open>
  The state of a run: the one configuration record \<^verbatim>\<open>cfg\<close> that every step mutates in
  place, what is left of standard input, and the trace of the calls made and the texts
  printed so far.
\<close>

record state =
  cfg :: Config
  stdin :: "read list"
  trace :: "event list"

definition emit :: "event \<Rightarrow> state \<Rightarrow> state" where
  "emit e s = s\<lparr>trace := trace s @ [e]\<rparr>"

text \<open>A call \<^verbatim>\<open>err = config.Save(cfg)\<close>.\<close>

definition call_Save :: "env \<Rightarrow> state \<Rightarrow> error option \<times> state" where
  "call_Save E s =
     (config_Save E (length (saved (trace s))) (cfg s), emit (Save (cfg s)) s)"

subsection \<open>The functions of cmd.go\<close>

text \<open>The guidance printed (with \<^verbatim>\<open>fmt.Println\<close>) before each of the two prompts.\<close>

definition key_guidance :: "env \<Rightarrow> string" where
  "key_guidance E =
     ''In order to login it is mandatory to provide an API key.\<newline>The recommended way is to generate an API key via: '' @ APIKeyURL E @ ''\<newline>''"

definition token_guidance :: "env \<Rightarrow> string" where
  "token_guidance E =
     ''\<newline>In order to view SOP it is mandatory to provide an GitHub Access Token.\<newline>The recommended way is to generate a token via: '' @ AccessTokenURL E @ ''\<newline>''"

text \<open>\<^verbatim>\<open>generateNewKey\<close> (lines 163-179). The line read is stored as it is, also on an error.\<close>

definition generateNewKey :: "env \<Rightarrow> state \<Rightarrow> error option \<times> state" where
  "generateNewKey E s =
     (let s1 = emit (Print (key_guidance E)) s;
          s2 = emit (Print ''API Key: '') s1;
          ((line, err), rest) = ReadString [] (stdin s2);
          s3 = emit StdinRead (s2\<lparr>stdin := rest\<rparr>)
      in (err, s3\<lparr>cfg := (cfg s3)\<lparr>ApiKey := line\<rparr>\<rparr>))"

text \<open>
  \<^verbatim>\<open>generateNewAccessToken\<close> (lines 182-199). The line read is stored with one trailing
  newline removed, before the error is looked at.
\<close>

definition generateNewAccessToken :: "env \<Rightarrow> state \<Rightarrow> error option \<times> state" where
  "generateNewAccessToken E s =
     (let s1 = emit (Print (token_guidance E)) s;
          s2 = emit (Print ''GitHub Access Token: '') s1;
          ((line, err), rest) = ReadString [] (stdin s2);
          s3 = emit StdinRead (s2\<lparr>stdin := rest\<rparr>)
      in (err, s3\<lparr>cfg := (cfg s3)\<lparr>AccessToken := TrimSuffix line ''\<newline>''\<rparr>\<rparr>))"

text \<open>
  \<^verbatim>\<open>Login\<close> (lines 204-221). The client is given by the answer of its
  \<^verbatim>\<open>GetCurrentUser\<close>. The result is the pair of the user name and the error.
\<close>

definition Login :: "string \<Rightarrow> error + User \<Rightarrow> string \<times> error option" where
  "Login key client =
     (case client of
        Inl err \<Rightarrow>
          (case errors_As_APIError err of
             Some (StatusCode, detail) \<Rightarrow>
               ('''', Some (ErrorString (''login failed\<newline>'' @ FormatInt StatusCode @ '' Unauthorized'')))
           | None \<Rightarrow> ('''', Some err))
      | Inr user \<Rightarrow> (Name user, None))"

text \<open>\<^verbatim>\<open>successMessage\<close> (lines 225-227): the text it prints.\<close>

definition successMessage :: "string \<Rightarrow> string" where
  "successMessage user = ''Successfully logged in as user: '' @ user @ ''\<newline>''"

subsection \<open>The handler, step by step\<close>

text \<open>Lines 70-79: load the configuration; on any error start from a new record.\<close>

definition load_step :: "env \<Rightarrow> read list \<Rightarrow> state" where
  "load_step E inp =
     \<lparr>cfg = (case config_Load E of Inl err \<Rightarrow> new_Config | Inr c \<Rightarrow> c),
      stdin = inp, trace = [Load]\<rparr>"

text \<open>Lines 81-92: a key given by the flag replaces the stored one and is saved at once.\<close>

definition override_step :: "env \<Rightarrow> loginArgs \<Rightarrow> state \<Rightarrow> error option \<times> state" where
  "override_step E args s =
     (if apiKey args \<noteq> ''''
      then call_Save E (s\<lparr>cfg := (cfg s)\<lparr>ApiKey := apiKey args\<rparr>\<rparr>)
      else (None, s))"

text \<open>Lines 94-103: no key yet, ask for one.\<close>

definition key_step :: "env \<Rightarrow> state \<Rightarrow> error option \<times> state" where
  "key_step E s =
     (if length (ApiKey (cfg s)) = 0 then generateNewKey E s else (None, s))"

text \<open>Lines 105-121: no access token yet, ask for one and save the record.\<close>

definition token_step :: "env \<Rightarrow> state \<Rightarrow> error option \<times> state" where
  "token_step E s =
     (if length (AccessToken (cfg s)) = 0
      then (case generateNewAccessToken E s of
              (Some err, s') \<Rightarrow> (Some err, s')
            | (None, s') \<Rightarrow> call_Save E s')
      else (None, s))"

text \<open>Lines 123-128: connect to the PagerDuty client.\<close>

definition connect_step :: "env \<Rightarrow> state \<Rightarrow> error option \<times> state" where
  "connect_step E s = (client_Connect E, emit Connect s)"

text \<open>Lines 130-138: log in with the key of the record and print the success message.\<close>

definition login_step :: "env \<Rightarrow> state \<Rightarrow> error option \<times> state" where
  "login_step E s =
     (case Login (ApiKey (cfg s)) (client_GetCurrentUser E) of
        (user, Some err) \<Rightarrow> (Some err, emit GetCurrentUser s)
      | (user, None) \<Rightarrow> (None, emit (Print (successMessage user)) (emit GetCurrentUser s)))"

text \<open>Lines 140-150: no team yet, let the user select one.\<close>

definition team_step :: "env \<Rightarrow> state \<Rightarrow> error option \<times> state" where
  "team_step E s =
     (if TeamID (cfg s) = ''''
      then (case teams_SelectTeam E of
              Inl err \<Rightarrow> (Some err, emit SelectTeam s)
            | Inr (teamdID, name) \<Rightarrow>
                (None, (emit SelectTeam s)\<lparr>cfg := (cfg s)\<lparr>TeamID := teamdID, Team := name\<rparr>\<rparr>))
      else (None, s))"

text \<open>Lines 152-159: the last save.\<close>

definition save_step :: "env \<Rightarrow> state \<Rightarrow> error option \<times> state" where
  "save_step E s = call_Save E s"

text \<open>
  Every step is followed by \<^verbatim>\<open>if err != nil { return err }\<close>: the steps run in order and
  the first error ends the run.
\<close>

fun run :: "(state \<Rightarrow> error option \<times> state) list \<Rightarrow> state \<Rightarrow> error option \<times> state" where
  "run [] s = (None, s)"
| "run (f # fs) s = (case f s of (Some err, s') \<Rightarrow> (Some err, s') | (None, s') \<Rightarrow> run fs s')"

text \<open>The credential steps of the handler: lines 81-121.\<close>

definition acquire_steps :: "env \<Rightarrow> loginArgs \<Rightarrow> (state \<Rightarrow> error option \<times> state) list" where
  "acquire_steps E args = [override_step E args, key_step E, token_step E]"

text \<open>The steps after them: lines 123-159.\<close>

definition verify_steps :: "env \<Rightarrow> (state \<Rightarrow> error option \<times> state) list" where
  "verify_steps E = [connect_step E, login_step E, team_step E, save_step E]"

text \<open>\<^verbatim>\<open>loginHandler\<close> (lines 65-160): the error returned and the state at the return.\<close>

definition loginHandler :: "env \<Rightarrow> loginArgs \<Rightarrow> read list \<Rightarrow> error option \<times> state" where
  "loginHandler E args inp = run (acquire_steps E args @ verify_steps E) (load_step E inp)"

text \<open>
  Modelled from the spec: the caller of the handler (package main, which executes the
  command and ends the process) is not part of the source at hand. The spec's CLI surface
  says: non-zero process exit on any returned error. The status is 0 when the handler
  returns no error and is taken to be 1 when it returns one.
\<close>

fun exit_status :: "error option \<Rightarrow> nat" where
  "exit_status None = 0"
| "exit_status (Some err) = 1"

subsection \<open>Properties of records and runs, and the runs used as examples\<close>

text \<open>The team identifier and the team name are both set or both unset.\<close>

definition paired :: "Config \<Rightarrow> bool" where
  "paired c = ((TeamID c = '''') = (Team c = ''''))"

definition all_paired :: "state \<Rightarrow> bool" where
  "all_paired s = (paired (cfg s) \<and> list_all paired (saved (trace s)))"

text \<open>No flag given.\<close>

definition noArgs :: loginArgs where
  "noArgs = \<lparr>apiKey = '''', accessToken = ''''\<rparr>"

text \<open>
  An environment in which nothing fails: no configuration stored yet (an empty record is
  loaded), every save succeeds, PagerDuty knows the user Jane Doe and the user selects the
  team T1.
\<close>

definition happy_env :: env where
  "happy_env =
     \<lparr>APIKeyURL = ''https://example.org/api-key'',
      AccessTokenURL = ''https://example.org/access-token'',
      config_Load = Inr new_Config,
      config_Save = (\<lambda>n c. None),
      client_Connect = None,
      client_GetCurrentUser = Inr \<lparr>Name = ''Jane Doe''\<rparr>,
      teams_SelectTeam = Inr (''T1'', ''Team One'')\<rparr>"

text \<open>The user types the key, then the token, one line per read.\<close>

definition two_lines :: "read list" where
  "two_lines = [Data ''abc123\<newline>'', Data ''ghtoken\<newline>'']"

text \<open>A stored configuration with every field set.\<close>

definition full_Config :: Config where
  "full_Config =
     \<lparr>ApiKey = ''old'', AccessToken = ''ghtoken'', TeamID = ''T1'', Team = ''Team One''\<rparr>"

text \<open>Every save succeeds but the second one.\<close>

definition last_save_fails :: "nat \<Rightarrow> Config \<Rightarrow> error option" where
  "last_save_fails n c = (if n = 1 then Some (ErrorString ''disk full'') else None)"

text \<open>
  Invariants of a run. \<open>key_kept k c\<close>: the trace starts with the load and the save of
  \<open>c\<close>, and the record and every record saved carry the key \<open>k\<close>. \<open>team_kept c\<close>: the
  record has the team of \<open>c\<close> and the selector was not called. \<open>typed_kept\<close>: the record
  and every record saved carry the key and the token typed in the example above.
\<close>

definition key_kept :: "string \<Rightarrow> Config \<Rightarrow> state \<Rightarrow> bool" where
  "key_kept k c s =
     (take 2 (trace s) = [Load, Save c] \<and> ApiKey (cfg s) = k
      \<and> list_all (\<lambda>c. ApiKey c = k) (saved (trace s)))"

definition team_kept :: "Config \<Rightarrow> state \<Rightarrow> bool" where
  "team_kept c s =
     (TeamID (cfg s) = TeamID c \<and> Team (cfg s) = Team c \<and> SelectTeam \<notin> set (trace s))"

definition typed :: "Config \<Rightarrow> bool" where
  "typed c = (ApiKey c = ''abc123\<newline>'' \<and> AccessToken c = ''ghtoken'')"

definition typed_kept :: "state \<Rightarrow> bool" where
  "typed_kept s = (typed (cfg s) \<and> list_all typed (saved (trace s)))"

section \<open>Auxiliary facts\<close>

lemmas step_defs = override_step_def key_step_def token_step_def connect_step_def
  login_step_def team_step_def save_step_def call_Save_def emit_def generateNewKey_def
  generateNewAccessToken_def

lemmas handler_defs = loginHandler_def acquire_steps_def verify_steps_def load_step_def step_defs

lemmas eval_defs = handler_defs Login_def new_Config_def TrimSuffix_def HasSuffix_def
  successMessage_def happy_env_def noArgs_def two_lines_def full_Config_def

text \<open>A line read without an error ends with the newline.\<close>

lemma ReadString_ok:
  "ReadString acc inp = ((line, None), rest) \<Longrightarrow> line \<noteq> [] \<and> last line = CHR ''\<newline>''"
  by (induction acc inp rule: ReadString.induct) (auto split: if_splits)

lemma TrimSuffix_empty:
  "line \<noteq> [] \<Longrightarrow> last line = CHR ''\<newline>'' \<Longrightarrow> TrimSuffix line ''\<newline>'' = [] \<Longrightarrow>
     line = ''\<newline>''"
  by (cases line rule: rev_cases) (auto simp: TrimSuffix_def HasSuffix_def split: if_splits)

lemma saved_append: "saved (xs @ ys) = saved xs @ saved ys"
  by (induction xs rule: saved.induct) simp_all

lemma run_append:
  "run (fs @ gs) s =
     (case run fs s of (Some err, s') \<Rightarrow> (Some err, s') | (None, s') \<Rightarrow> run gs s')"
  by (induction fs arbitrary: s) (auto split: prod.splits option.splits)

text \<open>What every step keeps true, also when it fails, is true when the run ends.\<close>

lemma run_preserves:
  assumes "\<And>f s. f \<in> set fs \<Longrightarrow> I s \<Longrightarrow> I (snd (f s))" and "I s"
  shows "I (snd (run fs s))"
  using assms
proof (induction fs arbitrary: s)
  case Nil
  then show ?case by simp
next
  case (Cons f fs)
  have fs: "I (snd (f s))" using Cons.prems by simp
  show ?case
  proof (cases "f s")
    case (Pair r s')
    with fs have s': "I s'" by simp
    show ?thesis
    proof (cases r)
      case None
      have "I (snd (run fs s'))" using Cons.IH [OF _ s'] Cons.prems(1) by simp
      with Pair None show ?thesis by simp
    next
      case (Some err)
      with Pair s' show ?thesis by simp
    qed
  qed
qed

lemma handler_preserves:
  assumes "I (load_step E inp)"
    and "\<And>s. I s \<Longrightarrow> I (snd (override_step E args s))"
    and "\<And>s. I s \<Longrightarrow> I (snd (key_step E s))"
    and "\<And>s. I s \<Longrightarrow> I (snd (token_step E s))"
    and "\<And>s. I s \<Longrightarrow> I (snd (connect_step E s))"
    and "\<And>s. I s \<Longrightarrow> I (snd (login_step E s))"
    and "\<And>s. I s \<Longrightarrow> I (snd (team_step E s))"
    and "\<And>s. I s \<Longrightarrow> I (snd (save_step E s))"
  shows "I (snd (loginHandler E args inp))"
  unfolding loginHandler_def
proof (rule run_preserves)
  show "I (load_step E inp)" by (rule assms(1))
next
  fix f s
  assume "f \<in> set (acquire_steps E args @ verify_steps E)" and "I s"
  then show "I (snd (f s))"
    using assms(2-) by (auto simp: acquire_steps_def verify_steps_def)
qed

text \<open>No step looks at the answer of \<^verbatim>\<open>config.Load\<close>.\<close>

lemma call_ignores_Load:
  "call_Save (E\<lparr>config_Load := x\<rparr>) s = call_Save E s"
  "generateNewKey (E\<lparr>config_Load := x\<rparr>) s = generateNewKey E s"
  "generateNewAccessToken (E\<lparr>config_Load := x\<rparr>) s = generateNewAccessToken E s"
  by (simp_all add: call_Save_def generateNewKey_def generateNewAccessToken_def
      key_guidance_def token_guidance_def)

lemma step_ignores_Load:
  "override_step (E\<lparr>config_Load := x\<rparr>) args s = override_step E args s"
  "key_step (E\<lparr>config_Load := x\<rparr>) s = key_step E s"
  "token_step (E\<lparr>config_Load := x\<rparr>) s = token_step E s"
  "connect_step (E\<lparr>config_Load := x\<rparr>) s = connect_step E s"
  "login_step (E\<lparr>config_Load := x\<rparr>) s = login_step E s"
  "team_step (E\<lparr>config_Load := x\<rparr>) s = team_step E s"
  "save_step (E\<lparr>config_Load := x\<rparr>) s = save_step E s"
  by (simp_all add: override_step_def key_step_def token_step_def connect_step_def
      login_step_def team_step_def save_step_def call_ignores_Load
      split: prod.splits option.splits)

lemma steps_ignore_Load:
  "acquire_steps (E\<lparr>config_Load := x\<rparr>) args = acquire_steps E args"
  "verify_steps (E\<lparr>config_Load := x\<rparr>) = verify_steps E"
  unfolding acquire_steps_def verify_steps_def
  by (auto simp: step_ignores_Load)

subsection \<open>The two halves of the handler\<close>

lemma handler_split:
  "loginHandler E args inp =
     (case run (acquire_steps E args) (load_step E inp) of
        (Some err, s') \<Rightarrow> (Some err, s')
      | (None, s') \<Rightarrow> run (verify_steps E) s')"
  by (simp add: loginHandler_def run_append)

lemma Login_user: "Login key (Inr u) = (Name u, None)"
  by (simp add: Login_def)

lemma Login_error: "\<exists>err'. Login key (Inl err) = ('''', Some err')"
  by (simp add: Login_def split: option.splits)

text \<open>Once connected and with a user found, what the second half adds to the trace.\<close>

lemma verify_after_login:
  assumes "client_Connect E = None" and "client_GetCurrentUser E = Inr u"
  shows "\<exists>post. trace (snd (run (verify_steps E) s)) =
           trace s @ [Connect, GetCurrentUser, Print (successMessage (Name u))] @ post
         \<and> (post = [SelectTeam] \<or> (\<exists>c. post = [SelectTeam, Save c]) \<or> (\<exists>c. post = [Save c]))"
  using assms
  by (simp add: verify_steps_def connect_step_def login_step_def team_step_def save_step_def
      call_Save_def emit_def Login_user split: sum.splits option.splits prod.splits)

text \<open>The trace of a second half that returns no error.\<close>

lemma verify_ok:
  assumes "run (verify_steps E) s1 = (None, s)"
  shows "\<exists>u mid. client_GetCurrentUser E = Inr u
     \<and> trace s = trace s1 @ [Connect, GetCurrentUser, Print (successMessage (Name u))]
         @ mid @ [Save (cfg s)]
     \<and> (mid = [] \<or> mid = [SelectTeam])"
proof (cases "client_GetCurrentUser E")
  case (Inl err)
  then obtain err' where "Login (ApiKey (cfg s1)) (client_GetCurrentUser E) = ('''', Some err')"
    using Login_error by metis
  with assms show ?thesis
    by (simp add: verify_steps_def connect_step_def login_step_def emit_def split: option.splits)
next
  case (Inr u)
  with assms show ?thesis
    by (auto simp: verify_steps_def connect_step_def login_step_def team_step_def save_step_def
      call_Save_def emit_def Login_user split: sum.splits option.splits prod.splits if_splits)
qed

text \<open>With no flag and both credentials stored, the first half does nothing.\<close>

lemma acquire_noop:
  "apiKey args = '''' \<Longrightarrow> ApiKey (cfg s) \<noteq> '''' \<Longrightarrow> AccessToken (cfg s) \<noteq> '''' \<Longrightarrow>
     run (acquire_steps E args) s = (None, s)"
  by (simp add: acquire_steps_def override_step_def key_step_def token_step_def)

lemma acquire_no_SelectTeam:
  assumes "SelectTeam \<notin> set (trace s)"
  shows "SelectTeam \<notin> set (trace (snd (run (acquire_steps E args) s)))"
proof (rule run_preserves [where I = "\<lambda>s. SelectTeam \<notin> set (trace s)"])
  fix f and s :: state
  assume f: "f \<in> set (acquire_steps E args)" and s: "SelectTeam \<notin> set (trace s)"
  have "SelectTeam \<notin> set (trace (snd (override_step E args s)))"
    using s by (simp add: override_step_def call_Save_def emit_def)
  moreover have "SelectTeam \<notin> set (trace (snd (key_step E s)))"
    using s by (simp add: key_step_def generateNewKey_def emit_def split: prod.splits)
  moreover have "SelectTeam \<notin> set (trace (snd (token_step E s)))"
    using s by (simp add: token_step_def generateNewAccessToken_def call_Save_def emit_def
        split: prod.splits option.splits)
  ultimately show "SelectTeam \<notin> set (trace (snd (f s)))"
    using f by (auto simp: acquire_steps_def)
qed (rule assms)

text \<open>The second half, once connected and with a user found: its result and its trace.\<close>

lemma verify_result:
  assumes "client_Connect E = None" and "client_GetCurrentUser E = Inr u"
  shows "run (verify_steps E) s1 =
     (if TeamID (cfg s1) = ''''
      then (case teams_SelectTeam E of
              Inl err \<Rightarrow>
                (Some err,
                 s1\<lparr>trace := trace s1 @ [Connect, GetCurrentUser,
                    Print (''Successfully logged in as user: '' @ Name u @ ''\<newline>''), SelectTeam]\<rparr>)
            | Inr (teamID, name) \<Rightarrow>
                (config_Save E (length (saved (trace s1)))
                   ((cfg s1)\<lparr>TeamID := teamID, Team := name\<rparr>),
                 s1\<lparr>cfg := (cfg s1)\<lparr>TeamID := teamID, Team := name\<rparr>,
                    trace := trace s1 @ [Connect, GetCurrentUser,
                      Print (''Successfully logged in as user: '' @ Name u @ ''\<newline>''), SelectTeam,
                      Save ((cfg s1)\<lparr>TeamID := teamID, Team := name\<rparr>)]\<rparr>))
      else (config_Save E (length (saved (trace s1))) (cfg s1),
            s1\<lparr>trace := trace s1 @ [Connect, GetCurrentUser,
               Print (''Successfully logged in as user: '' @ Name u @ ''\<newline>''),
               Save (cfg s1)]\<rparr>))"
  using assms
  by (simp add: verify_steps_def connect_step_def login_step_def team_step_def save_step_def
      call_Save_def emit_def Login_user successMessage_def saved_append
      split: sum.splits option.splits prod.splits)

text \<open>The first half on a record with both credentials: only the flag can add a save.\<close>

lemma acquire_full:
  assumes "ApiKey c \<noteq> ''''" "AccessToken c \<noteq> ''''" "cfg s = c"
  shows "run (acquire_steps E args) s =
     (if apiKey args = '''' then (None, s)
      else (config_Save E (length (saved (trace s))) (c\<lparr>ApiKey := apiKey args\<rparr>),
            s\<lparr>cfg := c\<lparr>ApiKey := apiKey args\<rparr>,
              trace := trace s @ [Save (c\<lparr>ApiKey := apiKey args\<rparr>)]\<rparr>))"
  using assms
  by (simp add: acquire_steps_def override_step_def key_step_def token_step_def call_Save_def
      emit_def split: option.splits)

subsection \<open>The prompts\<close>

lemma key_step_ok:
  "key_step E s = (None, s') \<Longrightarrow>
     ApiKey (cfg s') \<noteq> '''' \<and> AccessToken (cfg s') = AccessToken (cfg s)"
  by (auto simp: key_step_def generateNewKey_def emit_def split: if_splits prod.splits
      dest: ReadString_ok)

lemma token_step_ok:
  "token_step E s = (None, s') \<Longrightarrow>
     ApiKey (cfg s') = ApiKey (cfg s)
     \<and> (AccessToken (cfg s') \<noteq> ''''
        \<or> AccessToken (cfg s) = '''' \<and> fst (ReadString [] (stdin s)) = (''\<newline>'', None))"
  by (auto simp: token_step_def generateNewAccessToken_def call_Save_def emit_def
      split: if_splits prod.splits option.splits dest!: ReadString_ok dest: TrimSuffix_empty)

text \<open>The first half on the two lines typed, from an empty record and with no flag.\<close>

lemma scenario_A_acquire:
  assumes "cfg (load_step E two_lines) = new_Config" and "apiKey args = ''''"
  shows "run (acquire_steps E args) (load_step E two_lines) =
     (config_Save E 0
        \<lparr>ApiKey = ''abc123\<newline>'', AccessToken = ''ghtoken'', TeamID = '''', Team = ''''\<rparr>,
      \<lparr>cfg = \<lparr>ApiKey = ''abc123\<newline>'', AccessToken = ''ghtoken'', TeamID = '''', Team = ''''\<rparr>,
       stdin = [],
       trace = [Load, Print (key_guidance E), Print ''API Key: '', StdinRead,
                Print (token_guidance E), Print ''GitHub Access Token: '', StdinRead,
                Save \<lparr>ApiKey = ''abc123\<newline>'', AccessToken = ''ghtoken'', TeamID = '''',
                  Team = ''''\<rparr>]\<rparr>)"
  using assms
  by (simp add: acquire_steps_def load_step_def step_defs new_Config_def TrimSuffix_def
      HasSuffix_def two_lines_def split: option.splits)

subsection \<open>Invariants of the steps\<close>

lemma take2_append: "take 2 xs = [a, b] \<Longrightarrow> take 2 (xs @ ys) = [a, b]"
  by (cases xs; cases "tl xs") (auto simp: numeral_2_eq_2)

lemma key_kept_steps:
  assumes k: "apiKey args = k" "k \<noteq> ''''" "ApiKey c = k" and s: "key_kept k c s"
  shows "key_kept k c (snd (override_step E args s))"
    and "key_kept k c (snd (key_step E s))"
    and "key_kept k c (snd (token_step E s))"
    and "key_kept k c (snd (connect_step E s))"
    and "key_kept k c (snd (login_step E s))"
    and "key_kept k c (snd (team_step E s))"
    and "key_kept k c (snd (save_step E s))"
  using k s
  by (auto simp: key_kept_def step_defs saved_append take2_append
      simp del: take_append split: prod.splits option.splits sum.splits)

lemma typed_kept_verify:
  assumes "typed_kept s"
  shows "typed_kept (snd (run (verify_steps E) s))"
proof (rule run_preserves [where I = typed_kept])
  fix f and s :: state
  assume f: "f \<in> set (verify_steps E)" and s: "typed_kept s"
  have "typed_kept (snd (connect_step E s))"
    using s by (simp add: typed_kept_def connect_step_def emit_def saved_append)
  moreover have "typed_kept (snd (login_step E s))"
    using s by (simp add: typed_kept_def login_step_def emit_def saved_append
        split: prod.splits option.splits)
  moreover have "typed_kept (snd (team_step E s))"
    using s by (simp add: typed_kept_def typed_def team_step_def emit_def saved_append
        split: sum.splits prod.splits)
  moreover have "typed_kept (snd (save_step E s))"
    using s by (simp add: typed_kept_def save_step_def call_Save_def emit_def saved_append)
  ultimately show "typed_kept (snd (f s))"
    using f by (auto simp: verify_steps_def)
qed (rule assms)

section \<open>The claims\<close>

subsection \<open>C1: the two lines typed into an empty configuration\<close>

text \<open>
  C1. Empty configuration, no flag, the user types \<^verbatim>\<open>abc123\<close> and \<^verbatim>\<open>ghtoken\<close>, nothing
  fails: \<^verbatim>\<open>config.Save\<close> is called exactly twice, but the first record saved already
  carries the access token \<^verbatim>\<open>ghtoken\<close> next to the untrimmed key. \<^verbatim>\<open>generateNewKey\<close> does
  not save, so the record with the key and an empty access token is never written.
\<close>

theorem scenario_A_saves:
  "saved (trace (snd (loginHandler happy_env noArgs two_lines))) =
     [\<lparr>ApiKey = ''abc123\<newline>'', AccessToken = ''ghtoken'', TeamID = '''', Team = ''''\<rparr>,
      \<lparr>ApiKey = ''abc123\<newline>'', AccessToken = ''ghtoken'', TeamID = ''T1'',
        Team = ''Team One''\<rparr>]"
  by (simp add: eval_defs)

text \<open>
  The same holds whatever the collaborators answer: from an empty record and with no flag,
  every record saved in the run on these two lines carries both the key and the token.
\<close>

lemma scenario_A_token_in_every_save:
  assumes "cfg (load_step E two_lines) = new_Config" and "apiKey args = ''''"
  shows "list_all typed (saved (trace (snd (loginHandler E args two_lines))))"
proof -
  let ?s1 = "snd (run (acquire_steps E args) (load_step E two_lines))"
  have s1: "typed_kept ?s1"
    by (simp add: scenario_A_acquire [OF assms] typed_kept_def typed_def)
  have "snd (loginHandler E args two_lines) = ?s1
      \<or> snd (loginHandler E args two_lines) = snd (run (verify_steps E) ?s1)"
    by (simp add: handler_split split: prod.splits option.splits)
  with s1 typed_kept_verify [OF s1, of E] have "typed_kept (snd (loginHandler E args two_lines))"
    by auto
  then show ?thesis by (simp add: typed_kept_def)
qed

subsection \<open>C2: the credentials after the first half\<close>

text \<open>
  C2. As stated the claim fails: \<^verbatim>\<open>generateNewAccessToken\<close> removes the newline of the
  line read and checks nothing, so an empty line at the token prompt leaves the access token
  empty and no error is returned.
\<close>

theorem acquire_accepts_empty_token:
  "fst (run (acquire_steps happy_env noArgs)
          (load_step happy_env [Data ''abc123\<newline>'', Data ''\<newline>''])) = None
   \<and> AccessToken (cfg (snd (run (acquire_steps happy_env noArgs)
          (load_step happy_env [Data ''abc123\<newline>'', Data ''\<newline>''])))) = ''''"
  by (simp add: eval_defs)

text \<open>
  C2, amended. From any state \<open>s0\<close>, when the credential steps (flag, key prompt, token
  prompt) return no error, the key of the record is not empty, and the access token is not
  empty either unless the token prompt ran and the line read there was the newline alone
  (\<open>s1\<close> is the state after the flag and key steps, where the token prompt starts).
\<close>

theorem acquire_credentials:
  assumes "run (acquire_steps E args) s0 = (None, s)"
    and "run [override_step E args, key_step E] s0 = (r1, s1)"
  shows "ApiKey (cfg s) \<noteq> ''''
     \<and> (AccessToken (cfg s) \<noteq> ''''
        \<or> AccessToken (cfg s1) = '''' \<and> fst (ReadString [] (stdin s1)) = (''\<newline>'', None))"
proof -
  have split: "run (acquire_steps E args) s0 =
      (case run [override_step E args, key_step E] s0 of
         (Some err, s') \<Rightarrow> (Some err, s') | (None, s') \<Rightarrow> run [token_step E] s')"
    using run_append [of "[override_step E args, key_step E]" "[token_step E]" s0]
    by (simp add: acquire_steps_def)
  from assms split have r1: "r1 = None" and tok: "token_step E s1 = (None, s)"
    by (auto split: option.splits prod.splits)
  from assms(2) r1 have "ApiKey (cfg s1) \<noteq> ''''"
    by (auto simp: override_step_def call_Save_def emit_def
        split: option.splits prod.splits if_splits dest: key_step_ok)
  with token_step_ok [OF tok] show ?thesis by simp
qed

theorem acquire_credentials_witness:
  "fst (run (acquire_steps happy_env noArgs)
          (load_step happy_env [Data ''abc123\<newline>'', Data ''\<newline>''])) = None
   \<and> ApiKey (cfg (snd (run (acquire_steps happy_env noArgs)
          (load_step happy_env [Data ''abc123\<newline>'', Data ''\<newline>''])))) \<noteq> ''''
   \<and> AccessToken (cfg (snd (run [override_step happy_env noArgs, key_step happy_env]
          (load_step happy_env [Data ''abc123\<newline>'', Data ''\<newline>''])))) = ''''
   \<and> fst (ReadString [] (stdin (snd (run [override_step happy_env noArgs, key_step happy_env]
          (load_step happy_env [Data ''abc123\<newline>'', Data ''\<newline>''])))))
       = (''\<newline>'', None)"
proof -
  let ?s0 = "load_step happy_env [Data ''abc123\<newline>'', Data ''\<newline>'']"
  have h1: "run (acquire_steps happy_env noArgs) ?s0 =
      (None, snd (run (acquire_steps happy_env noArgs) ?s0))"
    by (simp add: eval_defs)
  have h2: "run [override_step happy_env noArgs, key_step happy_env] ?s0 =
      (None, snd (run [override_step happy_env noArgs, key_step happy_env] ?s0))"
    by (simp add: eval_defs)
  have e: "AccessToken (cfg (snd (run (acquire_steps happy_env noArgs) ?s0))) = ''''"
    by (simp add: eval_defs)
  have f: "fst (run (acquire_steps happy_env noArgs) ?s0) = None"
    by (simp add: eval_defs)
  from acquire_credentials [OF h1 h2] e f show ?thesis by blast
qed

subsection \<open>C3 and C5: the errors of Login\<close>

text \<open>
  C3. An error of \<^verbatim>\<open>GetCurrentUser\<close> that is a \<^verbatim>\<open>pagerduty.APIError\<close> is rewritten
  whatever its status code: a rate-limit answer (429) comes back as
  "login failed, 429 Unauthorized", not unchanged.
\<close>

theorem Login_rate_limit_rewritten:
  "Login ''abc123'' (Inl (APIError 429 ''Rate Limit Exceeded'')) =
     ('''', Some (ErrorString ''login failed\<newline>429 Unauthorized''))"
  by (simp add: Login_def FormatInt_def FormatUint.simps)

text \<open>Errors that are not an \<^verbatim>\<open>APIError\<close> (and wrap none) are returned as they are.\<close>

lemma Login_other_error_unchanged:
  "errors_As_APIError err = None \<Longrightarrow> Login key (Inl err) = ('''', Some err)"
  by (simp add: Login_def)

text \<open>
  C5. When \<^verbatim>\<open>GetCurrentUser\<close> fails with an \<^verbatim>\<open>APIError\<close> of status code 401, \<^verbatim>\<open>Login\<close>
  returns the empty name and an error whose message is "login failed, 401 Unauthorized":
  it contains "401" and "Unauthorized", and nothing else of the original error.
\<close>

theorem Login_unauthorized_401:
  "errors_As_APIError err = Some (401, detail) \<Longrightarrow>
     Login key (Inl err) = ('''', Some (ErrorString ''login failed\<newline>401 Unauthorized''))
     \<and> Contains ''login failed\<newline>401 Unauthorized'' ''401''
     \<and> Contains ''login failed\<newline>401 Unauthorized'' ''Unauthorized''"
  by (simp add: Login_def FormatInt_def FormatUint.simps)

theorem Login_unauthorized_401_witness:
  "errors_As_APIError (Wrapped ''GET /users/me'' (APIError 401 ''Invalid token'')) =
     Some (401, ''Invalid token'')
   \<and> Login ''abc123'' (Inl (Wrapped ''GET /users/me'' (APIError 401 ''Invalid token''))) =
     ('''', Some (ErrorString ''login failed\<newline>401 Unauthorized''))"
proof -
  have h: "errors_As_APIError (Wrapped ''GET /users/me'' (APIError 401 ''Invalid token'')) =
     Some (401, ''Invalid token'')" by simp
  from Login_unauthorized_401 [OF h, of "''abc123''"] h show ?thesis by simp
qed

subsection \<open>C4: the team identifier and the team name\<close>

text \<open>
  C4. As stated the claim fails: the handler saves what it loaded and what the selector
  answered, without looking at the pair. A stored record with a team identifier and no
  team name is saved again as it is, and a selector answer with an empty name is saved too.
\<close>

theorem unpaired_record_saved:
  "saved (trace (snd (loginHandler
      (happy_env\<lparr>config_Load := Inr (full_Config\<lparr>Team := ''''\<rparr>)\<rparr>) noArgs two_lines))) =
     [\<lparr>ApiKey = ''old'', AccessToken = ''ghtoken'', TeamID = ''T1'', Team = ''''\<rparr>]
   \<and> saved (trace (snd (loginHandler
      (happy_env\<lparr>teams_SelectTeam := Inr (''T1'', '''')\<rparr>) noArgs two_lines))) =
     [\<lparr>ApiKey = ''abc123\<newline>'', AccessToken = ''ghtoken'', TeamID = '''', Team = ''''\<rparr>,
      \<lparr>ApiKey = ''abc123\<newline>'', AccessToken = ''ghtoken'', TeamID = ''T1'', Team = ''''\<rparr>]"
  by (simp add: eval_defs)

text \<open>
  C4, amended. When the record loaded has the team identifier and the team name both set
  or both empty, and the selector, when it succeeds, answers with both set or both empty,
  every record passed to \<^verbatim>\<open>config.Save\<close> has both set or both empty.
\<close>

theorem saved_records_paired:
  assumes ld: "case config_Load E of Inl err \<Rightarrow> True | Inr c \<Rightarrow> paired c"
    and sel: "case teams_SelectTeam E of Inl err \<Rightarrow> True
              | Inr (teamID, name) \<Rightarrow> (teamID = '''') = (name = '''')"
  shows "\<forall>c \<in> set (saved (trace (snd (loginHandler E args inp)))). paired c"
proof -
  have "all_paired (snd (loginHandler E args inp))"
  proof (rule handler_preserves)
    show "all_paired (load_step E inp)"
      using ld
      by (auto simp: all_paired_def load_step_def paired_def new_Config_def split: sum.splits)
  next
    fix s assume "all_paired s"
    then show "all_paired (snd (override_step E args s))"
      by (simp add: override_step_def call_Save_def emit_def all_paired_def paired_def
          saved_append)
  next
    fix s assume "all_paired s"
    then show "all_paired (snd (key_step E s))"
      by (simp add: key_step_def generateNewKey_def emit_def all_paired_def paired_def
          saved_append split: prod.splits)
  next
    fix s assume "all_paired s"
    then show "all_paired (snd (token_step E s))"
      by (simp add: token_step_def generateNewAccessToken_def call_Save_def emit_def
          all_paired_def paired_def saved_append split: prod.splits option.splits)
  next
    fix s assume "all_paired s"
    then show "all_paired (snd (connect_step E s))"
      by (simp add: connect_step_def emit_def all_paired_def saved_append)
  next
    fix s assume "all_paired s"
    then show "all_paired (snd (login_step E s))"
      by (simp add: login_step_def emit_def all_paired_def saved_append
          split: prod.splits option.splits)
  next
    fix s assume "all_paired s"
    then show "all_paired (snd (team_step E s))"
      using sel
      by (auto simp: team_step_def emit_def all_paired_def paired_def saved_append
          split: sum.splits)
  next
    fix s assume "all_paired s"
    then show "all_paired (snd (save_step E s))"
      by (simp add: save_step_def call_Save_def emit_def all_paired_def saved_append)
  qed
  then show ?thesis by (simp add: all_paired_def list_all_iff)
qed

theorem saved_records_paired_witness:
  "(case config_Load happy_env of Inl err \<Rightarrow> True | Inr c \<Rightarrow> paired c)
   \<and> (case teams_SelectTeam happy_env of Inl err \<Rightarrow> True
       | Inr (teamID, name) \<Rightarrow> (teamID = '''') = (name = ''''))
   \<and> list_all paired (saved (trace (snd (loginHandler happy_env noArgs two_lines))))
   \<and> length (saved (trace (snd (loginHandler happy_env noArgs two_lines)))) = 2"
proof -
  have ld: "case config_Load happy_env of Inl err \<Rightarrow> True | Inr c \<Rightarrow> paired c"
    by (simp add: happy_env_def new_Config_def paired_def)
  have sel: "case teams_SelectTeam happy_env of Inl err \<Rightarrow> True
       | Inr (teamID, name) \<Rightarrow> (teamID = '''') = (name = '''')"
    by (simp add: happy_env_def)
  have n: "length (saved (trace (snd (loginHandler happy_env noArgs two_lines)))) = 2"
    by (simp add: eval_defs)
  from saved_records_paired [OF ld sel, of noArgs two_lines] ld sel n show ?thesis
    by (simp add: list_all_iff)
qed

subsection \<open>C6: the key given by the flag\<close>

text \<open>
  C6. When the flag --api-key gives a non-empty key, the override step sets the key of the
  record to it, and the first thing the handler does after loading is to save the record
  loaded with that key: the save precedes every prompt, read, connection, user lookup and
  team selection. The key stays in the record to the end of the run, and every record saved
  in the run carries it.
\<close>

theorem override_saved_first:
  assumes k: "apiKey args \<noteq> ''''"
  shows "ApiKey (cfg (snd (override_step E args (load_step E inp)))) = apiKey args
     \<and> take 2 (trace (snd (loginHandler E args inp))) =
         [Load, Save ((cfg (load_step E inp))\<lparr>ApiKey := apiKey args\<rparr>)]
     \<and> ApiKey (cfg (snd (loginHandler E args inp))) = apiKey args
     \<and> (\<forall>c \<in> set (saved (trace (snd (loginHandler E args inp)))). ApiKey c = apiKey args)"
proof -
  let ?c = "(cfg (load_step E inp))\<lparr>ApiKey := apiKey args\<rparr>"
  let ?s1 = "snd (override_step E args (load_step E inp))"
  let ?rest = "key_step E # token_step E # verify_steps E"
  have s1: "key_kept (apiKey args) ?c ?s1"
    using k by (simp add: key_kept_def override_step_def call_Save_def emit_def load_step_def)
  have rest: "key_kept (apiKey args) ?c (snd (run ?rest ?s1))"
  proof (rule run_preserves [where I = "key_kept (apiKey args) ?c"])
    fix f and s :: state
    assume "f \<in> set ?rest" and "key_kept (apiKey args) ?c s"
    then show "key_kept (apiKey args) ?c (snd (f s))"
      using key_kept_steps [of args "apiKey args" ?c s E] k
      by (auto simp: verify_steps_def)
  qed (rule s1)
  have h: "loginHandler E args inp = run (override_step E args # ?rest) (load_step E inp)"
    by (simp add: loginHandler_def acquire_steps_def)
  have "key_kept (apiKey args) ?c (snd (loginHandler E args inp))"
  proof (cases "override_step E args (load_step E inp)")
    case (Pair r s')
    then have s': "s' = ?s1" by simp
    show ?thesis
    proof (cases r)
      case None
      with Pair have "loginHandler E args inp = run ?rest ?s1" by (simp add: h)
      with rest show ?thesis by simp
    next
      case (Some err)
      with Pair have "snd (loginHandler E args inp) = ?s1" by (simp add: h)
      with s1 show ?thesis by simp
    qed
  qed
  moreover have "ApiKey (cfg ?s1) = apiKey args"
    using s1 by (simp add: key_kept_def)
  ultimately show ?thesis by (simp add: key_kept_def list_all_iff)
qed

theorem override_saved_first_witness:
  "apiKey \<lparr>apiKey = ''new'', accessToken = ''''\<rparr> \<noteq> ''''
   \<and> take 2 (trace (snd (loginHandler (happy_env\<lparr>config_Load := Inr full_Config\<rparr>)
        \<lparr>apiKey = ''new'', accessToken = ''''\<rparr> []))) =
       [Load, Save \<lparr>ApiKey = ''new'', AccessToken = ''ghtoken'', TeamID = ''T1'',
          Team = ''Team One''\<rparr>]
   \<and> ApiKey (cfg (snd (loginHandler (happy_env\<lparr>config_Load := Inr full_Config\<rparr>)
        \<lparr>apiKey = ''new'', accessToken = ''''\<rparr> []))) = ''new''"
proof -
  have h: "apiKey \<lparr>apiKey = ''new'', accessToken = ''''\<rparr> \<noteq> ''''" by simp
  from override_saved_first [OF h, of "happy_env\<lparr>config_Load := Inr full_Config\<rparr>" "[]"] h
  show ?thesis by (simp add: load_step_def full_Config_def)
qed

subsection \<open>C7: a configuration that cannot be loaded\<close>

text \<open>
  C7. When \<^verbatim>\<open>config.Load\<close> fails, whatever the error, the handler goes on with a new record
  whose four fields are empty, and the whole run is the run that a successful load of the
  empty record gives: the load error is not returned and has no other effect.
\<close>

theorem load_failure_starts_fresh:
  "config_Load E = Inl err \<Longrightarrow>
     cfg (load_step E inp) = \<lparr>ApiKey = '''', AccessToken = '''', TeamID = '''', Team = ''''\<rparr>
     \<and> loginHandler E args inp = loginHandler (E\<lparr>config_Load := Inr new_Config\<rparr>) args inp"
  by (simp add: loginHandler_def steps_ignore_Load load_step_def new_Config_def)

theorem load_failure_starts_fresh_witness:
  "config_Load (happy_env\<lparr>config_Load := Inl (ErrorString ''malformed config'')\<rparr>) =
     Inl (ErrorString ''malformed config'')
   \<and> cfg (load_step (happy_env\<lparr>config_Load := Inl (ErrorString ''malformed config'')\<rparr>) two_lines) =
     \<lparr>ApiKey = '''', AccessToken = '''', TeamID = '''', Team = ''''\<rparr>
   \<and> fst (loginHandler (happy_env\<lparr>config_Load := Inl (ErrorString ''malformed config'')\<rparr>)
        noArgs two_lines) = None"
proof -
  have h: "config_Load (happy_env\<lparr>config_Load := Inl (ErrorString ''malformed config'')\<rparr>) =
     Inl (ErrorString ''malformed config'')" by simp
  have e: "happy_env\<lparr>config_Load := Inl (ErrorString ''malformed config''),
     config_Load := Inr new_Config\<rparr> = happy_env"
    by (simp add: happy_env_def)
  have r: "fst (loginHandler happy_env noArgs two_lines) = None"
    by (simp add: eval_defs)
  from load_failure_starts_fresh [OF h, of two_lines noArgs] h e r show ?thesis by simp
qed

subsection \<open>C8: a team already selected\<close>

text \<open>
  C8. When the team identifier of the record is not empty, the team step returns no error
  and leaves the whole state as it is: no call of \<^verbatim>\<open>teams.SelectTeam\<close> is added to the
  trace and the record is unchanged. Hence a run that loads a record with a team identifier
  never calls the selector and ends with the team identifier and the team name it loaded.
\<close>

theorem team_already_set:
  "(TeamID (cfg s) \<noteq> '''' \<longrightarrow> team_step E s = (None, s))
   \<and> (config_Load E = Inr c \<and> TeamID c \<noteq> '''' \<longrightarrow>
        SelectTeam \<notin> set (trace (snd (loginHandler E args inp)))
        \<and> TeamID (cfg (snd (loginHandler E args inp))) = TeamID c
        \<and> Team (cfg (snd (loginHandler E args inp))) = Team c)"
proof -
  have a: "TeamID (cfg s) \<noteq> '''' \<longrightarrow> team_step E s = (None, s)"
    by (simp add: team_step_def)
  have b: "team_kept c (snd (loginHandler E args inp))"
    if ld: "config_Load E = Inr c" and t: "TeamID c \<noteq> ''''"
  proof (rule handler_preserves)
    show "team_kept c (load_step E inp)"
      using ld by (simp add: team_kept_def load_step_def)
  next
    fix s assume "team_kept c s"
    then show "team_kept c (snd (override_step E args s))"
      by (simp add: team_kept_def override_step_def call_Save_def emit_def)
  next
    fix s assume "team_kept c s"
    then show "team_kept c (snd (key_step E s))"
      by (simp add: team_kept_def key_step_def generateNewKey_def emit_def split: prod.splits)
  next
    fix s assume "team_kept c s"
    then show "team_kept c (snd (token_step E s))"
      by (simp add: team_kept_def token_step_def generateNewAccessToken_def call_Save_def
          emit_def split: prod.splits option.splits)
  next
    fix s assume "team_kept c s"
    then show "team_kept c (snd (connect_step E s))"
      by (simp add: team_kept_def connect_step_def emit_def)
  next
    fix s assume "team_kept c s"
    then show "team_kept c (snd (login_step E s))"
      by (simp add: team_kept_def login_step_def emit_def split: prod.splits option.splits)
  next
    fix s assume "team_kept c s"
    then show "team_kept c (snd (team_step E s))"
      using t by (simp add: team_kept_def team_step_def)
  next
    fix s assume "team_kept c s"
    then show "team_kept c (snd (save_step E s))"
      by (simp add: team_kept_def save_step_def call_Save_def emit_def)
  qed
  from a b show ?thesis by (simp add: team_kept_def)
qed

theorem team_already_set_witness:
  "TeamID (cfg (load_step (happy_env\<lparr>config_Load := Inr full_Config\<rparr>) [])) \<noteq> ''''
   \<and> team_step (happy_env\<lparr>config_Load := Inr full_Config\<rparr>)
        (load_step (happy_env\<lparr>config_Load := Inr full_Config\<rparr>) []) =
      (None, load_step (happy_env\<lparr>config_Load := Inr full_Config\<rparr>) [])
   \<and> SelectTeam \<notin> set (trace (snd (loginHandler (happy_env\<lparr>config_Load := Inr full_Config\<rparr>)
        noArgs [])))
   \<and> TeamID (cfg (snd (loginHandler (happy_env\<lparr>config_Load := Inr full_Config\<rparr>) noArgs [])))
       = ''T1''
   \<and> Team (cfg (snd (loginHandler (happy_env\<lparr>config_Load := Inr full_Config\<rparr>) noArgs [])))
       = ''Team One''"
proof -
  let ?E = "happy_env\<lparr>config_Load := Inr full_Config\<rparr>"
  have h1: "TeamID (cfg (load_step ?E [])) \<noteq> ''''"
    by (simp add: load_step_def full_Config_def)
  have h2: "config_Load ?E = Inr full_Config \<and> TeamID full_Config \<noteq> ''''"
    by (simp add: full_Config_def)
  from team_already_set [of "load_step ?E []" ?E full_Config noArgs "[]"] h1 h2
  show ?thesis by (simp add: full_Config_def)
qed

subsection \<open>C9: the last save\<close>

text \<open>
  C9. As stated the claim fails in its count of the saves: with every field of the stored
  record set and the flag --api-key given, a run without error calls \<^verbatim>\<open>config.Save\<close>
  twice, once for the flag and once at the end.
\<close>

theorem override_saves_twice:
  "fst (loginHandler (happy_env\<lparr>config_Load := Inr full_Config\<rparr>)
          \<lparr>apiKey = ''new'', accessToken = ''''\<rparr> []) = None
   \<and> saved (trace (snd (loginHandler (happy_env\<lparr>config_Load := Inr full_Config\<rparr>)
          \<lparr>apiKey = ''new'', accessToken = ''''\<rparr> []))) =
       [\<lparr>ApiKey = ''new'', AccessToken = ''ghtoken'', TeamID = ''T1'', Team = ''Team One''\<rparr>,
        \<lparr>ApiKey = ''new'', AccessToken = ''ghtoken'', TeamID = ''T1'', Team = ''Team One''\<rparr>]"
  by (simp add: eval_defs)

text \<open>
  C9, amended. In every run that returns no error, the trace ends with the user lookup,
  the line "Successfully logged in as user: name" with the name of the user found, at most
  one call of the selector and then exactly one save, of the final record. When moreover
  the record loaded has its key, its access token and its team identifier set, then,
  with or without the flag --api-key, nothing is prompted, nothing is read from standard
  input and the selector is not called: the whole trace is the load, the save of the flag's
  key if the flag is given, the connection, the user lookup, the success line and the last
  save. The number of saves is one without the flag and two with it.
\<close>

theorem final_save_once:
  assumes ok: "fst (loginHandler E args inp) = None"
  shows "(\<exists>pre u mid. client_GetCurrentUser E = Inr u
          \<and> trace (snd (loginHandler E args inp)) =
              pre @ [GetCurrentUser,
                     Print (''Successfully logged in as user: '' @ Name u @ ''\<newline>'')]
                @ mid @ [Save (cfg (snd (loginHandler E args inp)))]
          \<and> (mid = [] \<or> mid = [SelectTeam]))
     \<and> (config_Load E = Inr c \<and> ApiKey c \<noteq> '''' \<and> AccessToken c \<noteq> '''' \<and> TeamID c \<noteq> '''' \<longrightarrow>
          (\<exists>u. client_GetCurrentUser E = Inr u
             \<and> trace (snd (loginHandler E args inp)) =
                 [Load] @ (if apiKey args = '''' then [] else [Save (c\<lparr>ApiKey := apiKey args\<rparr>)])
                 @ [Connect, GetCurrentUser,
                    Print (''Successfully logged in as user: '' @ Name u @ ''\<newline>''),
                    Save (cfg (snd (loginHandler E args inp)))])
          \<and> cfg (snd (loginHandler E args inp)) =
              (if apiKey args = '''' then c else c\<lparr>ApiKey := apiKey args\<rparr>)
          \<and> stdin (snd (loginHandler E args inp)) = inp
          \<and> StdinRead \<notin> set (trace (snd (loginHandler E args inp)))
          \<and> SelectTeam \<notin> set (trace (snd (loginHandler E args inp)))
          \<and> length (saved (trace (snd (loginHandler E args inp)))) =
              (if apiKey args = '''' then 1 else 2))"
proof -
  obtain s where s: "loginHandler E args inp = (None, s)"
    using ok by (cases "loginHandler E args inp") simp
  then obtain s1 where s1: "run (acquire_steps E args) (load_step E inp) = (None, s1)"
    and v: "run (verify_steps E) s1 = (None, s)"
    by (auto simp: handler_split split: prod.splits option.splits)
  from verify_ok [OF v] obtain u :: User and mid where
    u: "client_GetCurrentUser E = Inr u"
    and t: "trace s = trace s1 @ [Connect, GetCurrentUser, Print (successMessage (Name u))]
          @ mid @ [Save (cfg s)]"
    and m: "mid = [] \<or> mid = [SelectTeam]"
    by blast
  have con: "client_Connect E = None"
    using v by (simp add: verify_steps_def connect_step_def split: option.splits)
  have a: "\<exists>pre u mid. client_GetCurrentUser E = Inr u
      \<and> trace s = pre @ [GetCurrentUser,
            Print (''Successfully logged in as user: '' @ Name u @ ''\<newline>'')]
          @ mid @ [Save (cfg s)]
      \<and> (mid = [] \<or> mid = [SelectTeam])"
  proof (intro exI conjI)
    show "client_GetCurrentUser E = Inr u" by (rule u)
    show "trace s = (trace s1 @ [Connect]) @ [GetCurrentUser,
            Print (''Successfully logged in as user: '' @ Name u @ ''\<newline>'')]
        @ mid @ [Save (cfg s)]"
      using t by (simp add: successMessage_def)
    show "mid = [] \<or> mid = [SelectTeam]" by (rule m)
  qed
  have b: "trace s = [Load] @ (if apiKey args = '''' then [] else [Save (c\<lparr>ApiKey := apiKey args\<rparr>)])
                 @ [Connect, GetCurrentUser,
                    Print (''Successfully logged in as user: '' @ Name u @ ''\<newline>''),
                    Save (cfg s)]
        \<and> cfg s = (if apiKey args = '''' then c else c\<lparr>ApiKey := apiKey args\<rparr>)
        \<and> stdin s = inp
        \<and> StdinRead \<notin> set (trace s) \<and> SelectTeam \<notin> set (trace s)
        \<and> length (saved (trace s)) = (if apiKey args = '''' then 1 else 2)"
    if c: "config_Load E = Inr c" "ApiKey c \<noteq> ''''" "AccessToken c \<noteq> ''''" "TeamID c \<noteq> ''''"
  proof -
    have l: "cfg (load_step E inp) = c"
      using c(1) by (simp add: load_step_def)
    note acq = acquire_full [OF c(2) c(3) l, of E args]
    show ?thesis
    proof (cases "apiKey args = ''''")
      case True
      with acq s1 have e: "s1 = load_step E inp" by simp
      from v c True show ?thesis
        unfolding e verify_result [OF con u]
        by (auto simp: load_step_def split: if_splits)
    next
      case False
      with acq s1 have e: "s1 = (load_step E inp)\<lparr>cfg := c\<lparr>ApiKey := apiKey args\<rparr>,
              trace := trace (load_step E inp) @ [Save (c\<lparr>ApiKey := apiKey args\<rparr>)]\<rparr>"
        by simp
      from v c False show ?thesis
        unfolding e verify_result [OF con u]
        by (auto simp: load_step_def split: if_splits)
    qed
  qed
  from a b u show ?thesis by (auto simp: s)
qed

theorem final_save_once_witness:
  "fst (loginHandler (happy_env\<lparr>config_Load := Inr full_Config\<rparr>) noArgs []) = None
   \<and> trace (snd (loginHandler (happy_env\<lparr>config_Load := Inr full_Config\<rparr>) noArgs [])) =
       [Load, Connect, GetCurrentUser, Print ''Successfully logged in as user: Jane Doe\<newline>'',
        Save full_Config]
   \<and> stdin (snd (loginHandler (happy_env\<lparr>config_Load := Inr full_Config\<rparr>) noArgs [])) = []
   \<and> length (saved (trace (snd (loginHandler (happy_env\<lparr>config_Load := Inr full_Config\<rparr>)
        noArgs [])))) = 1
   \<and> fst (loginHandler (happy_env\<lparr>config_Load := Inr full_Config\<rparr>)
        \<lparr>apiKey = ''new'', accessToken = ''''\<rparr> []) = None
   \<and> length (saved (trace (snd (loginHandler (happy_env\<lparr>config_Load := Inr full_Config\<rparr>)
        \<lparr>apiKey = ''new'', accessToken = ''''\<rparr> [])))) = 2
   \<and> StdinRead \<notin> set (trace (snd (loginHandler (happy_env\<lparr>config_Load := Inr full_Config\<rparr>)
        \<lparr>apiKey = ''new'', accessToken = ''''\<rparr> [])))
   \<and> SelectTeam \<notin> set (trace (snd (loginHandler (happy_env\<lparr>config_Load := Inr full_Config\<rparr>)
        \<lparr>apiKey = ''new'', accessToken = ''''\<rparr> [])))"
proof -
  let ?E = "happy_env\<lparr>config_Load := Inr full_Config\<rparr>"
  let ?new = "\<lparr>apiKey = ''new'', accessToken = ''''\<rparr>"
  have h: "fst (loginHandler ?E noArgs []) = None"
    by (simp add: eval_defs)
  have h': "fst (loginHandler ?E ?new []) = None"
    by (simp add: eval_defs)
  have p: "config_Load ?E = Inr full_Config \<and> ApiKey full_Config \<noteq> ''''
     \<and> AccessToken full_Config \<noteq> '''' \<and> TeamID full_Config \<noteq> ''''"
    by (simp add: full_Config_def)
  have n: "apiKey noArgs = ''''" "apiKey ?new \<noteq> ''''"
    by (simp_all add: noArgs_def)
  have g: "client_GetCurrentUser ?E = Inr \<lparr>Name = ''Jane Doe''\<rparr>"
    by (simp add: happy_env_def)
  from final_save_once [OF h, of full_Config] p n(1) g have 1:
    "trace (snd (loginHandler ?E noArgs [])) =
       [Load, Connect, GetCurrentUser, Print ''Successfully logged in as user: Jane Doe\<newline>'',
        Save full_Config]
     \<and> stdin (snd (loginHandler ?E noArgs [])) = []
     \<and> length (saved (trace (snd (loginHandler ?E noArgs [])))) = 1"
    by auto
  from final_save_once [OF h', of full_Config] p n(2) have 2:
    "length (saved (trace (snd (loginHandler ?E ?new [])))) = 2
     \<and> StdinRead \<notin> set (trace (snd (loginHandler ?E ?new [])))
     \<and> SelectTeam \<notin> set (trace (snd (loginHandler ?E ?new [])))"
    by auto
  from h h' 1 2 show ?thesis by blast
qed

subsection \<open>C10: the success message and what follows it\<close>

text \<open>
  C10. In every run where the credential steps and the connection succeed and
  \<^verbatim>\<open>GetCurrentUser\<close> finds a user, the line "Successfully logged in as user: name", with
  the name of that user, is printed right after the lookup. The selector is not called
  before it, and what follows it is a failed selection, or a selection and the last save,
  or the last save alone; the handler returns the error of the selector or the outcome of
  that last save. So whenever such a run returns an error, the line has been printed and
  the exit status is not zero; the two runs at the end are of this kind, one failing in
  the selector and one in the last save.
\<close>

theorem success_line_before_team:
  assumes acq: "run (acquire_steps E args) (load_step E inp) = (None, s1)"
    and con: "client_Connect E = None"
    and usr: "client_GetCurrentUser E = Inr u"
  shows "loginHandler E args inp =
       (if TeamID (cfg s1) = ''''
        then (case teams_SelectTeam E of
                Inl err \<Rightarrow>
                  (Some err,
                   s1\<lparr>trace := trace s1 @ [Connect, GetCurrentUser,
                      Print (''Successfully logged in as user: '' @ Name u @ ''\<newline>''),
                      SelectTeam]\<rparr>)
              | Inr (teamID, name) \<Rightarrow>
                  (config_Save E (length (saved (trace s1)))
                     ((cfg s1)\<lparr>TeamID := teamID, Team := name\<rparr>),
                   s1\<lparr>cfg := (cfg s1)\<lparr>TeamID := teamID, Team := name\<rparr>,
                      trace := trace s1 @ [Connect, GetCurrentUser,
                        Print (''Successfully logged in as user: '' @ Name u @ ''\<newline>''),
                        SelectTeam, Save ((cfg s1)\<lparr>TeamID := teamID, Team := name\<rparr>)]\<rparr>))
        else (config_Save E (length (saved (trace s1))) (cfg s1),
              s1\<lparr>trace := trace s1 @ [Connect, GetCurrentUser,
                 Print (''Successfully logged in as user: '' @ Name u @ ''\<newline>''),
                 Save (cfg s1)]\<rparr>))
     \<and> (\<exists>post. trace (snd (loginHandler E args inp)) =
             trace s1 @ [Connect, GetCurrentUser,
               Print (''Successfully logged in as user: '' @ Name u @ ''\<newline>'')] @ post
           \<and> (post = [SelectTeam] \<or> (\<exists>c. post = [SelectTeam, Save c]) \<or> (\<exists>c. post = [Save c])))
     \<and> SelectTeam \<notin> set (trace s1)
     \<and> (fst (loginHandler E args inp) \<noteq> None \<longrightarrow>
          exit_status (fst (loginHandler E args inp)) \<noteq> 0
          \<and> Print (''Successfully logged in as user: '' @ Name u @ ''\<newline>'')
              \<in> set (trace (snd (loginHandler E args inp))))
     \<and> fst (loginHandler (happy_env\<lparr>teams_SelectTeam := Inl (ErrorString ''no team'')\<rparr>)
          noArgs two_lines) = Some (ErrorString ''no team'')
     \<and> exit_status (fst (loginHandler
          (happy_env\<lparr>teams_SelectTeam := Inl (ErrorString ''no team'')\<rparr>) noArgs two_lines)) = 1
     \<and> Print ''Successfully logged in as user: Jane Doe\<newline>''
          \<in> set (trace (snd (loginHandler
              (happy_env\<lparr>teams_SelectTeam := Inl (ErrorString ''no team'')\<rparr>) noArgs two_lines)))
     \<and> fst (loginHandler (happy_env\<lparr>config_Save := last_save_fails\<rparr>) noArgs two_lines) =
          Some (ErrorString ''disk full'')
     \<and> exit_status (fst (loginHandler (happy_env\<lparr>config_Save := last_save_fails\<rparr>)
          noArgs two_lines)) = 1
     \<and> Print ''Successfully logged in as user: Jane Doe\<newline>''
          \<in> set (trace (snd (loginHandler
              (happy_env\<lparr>config_Save := last_save_fails\<rparr>) noArgs two_lines)))"
proof -
  have h: "loginHandler E args inp = run (verify_steps E) s1"
    by (simp add: handler_split acq)
  note r = verify_result [OF con usr, of s1]
  have a: "loginHandler E args inp =
       (if TeamID (cfg s1) = ''''
        then (case teams_SelectTeam E of
                Inl err \<Rightarrow>
                  (Some err,
                   s1\<lparr>trace := trace s1 @ [Connect, GetCurrentUser,
                      Print (''Successfully logged in as user: '' @ Name u @ ''\<newline>''),
                      SelectTeam]\<rparr>)
              | Inr (teamID, name) \<Rightarrow>
                  (config_Save E (length (saved (trace s1)))
                     ((cfg s1)\<lparr>TeamID := teamID, Team := name\<rparr>),
                   s1\<lparr>cfg := (cfg s1)\<lparr>TeamID := teamID, Team := name\<rparr>,
                      trace := trace s1 @ [Connect, GetCurrentUser,
                        Print (''Successfully logged in as user: '' @ Name u @ ''\<newline>''),
                        SelectTeam, Save ((cfg s1)\<lparr>TeamID := teamID, Team := name\<rparr>)]\<rparr>))
        else (config_Save E (length (saved (trace s1))) (cfg s1),
              s1\<lparr>trace := trace s1 @ [Connect, GetCurrentUser,
                 Print (''Successfully logged in as user: '' @ Name u @ ''\<newline>''),
                 Save (cfg s1)]\<rparr>))"
    unfolding h by (rule r)
  have b: "\<exists>post. trace (snd (loginHandler E args inp)) =
             trace s1 @ [Connect, GetCurrentUser,
               Print (''Successfully logged in as user: '' @ Name u @ ''\<newline>'')] @ post
           \<and> (post = [SelectTeam] \<or> (\<exists>c. post = [SelectTeam, Save c]) \<or> (\<exists>c. post = [Save c]))"
    unfolding a by (simp split: sum.splits prod.splits)
  have c: "SelectTeam \<notin> set (trace s1)"
    using acquire_no_SelectTeam [of "load_step E inp" E args] acq by (simp add: load_step_def)
  have d: "Print (''Successfully logged in as user: '' @ Name u @ ''\<newline>'')
              \<in> set (trace (snd (loginHandler E args inp)))"
    using b by auto
  have e: "fst (loginHandler E args inp) \<noteq> None \<longrightarrow>
      exit_status (fst (loginHandler E args inp)) \<noteq> 0"
    by (cases "fst (loginHandler E args inp)") simp_all
  have f: "fst (loginHandler (happy_env\<lparr>teams_SelectTeam := Inl (ErrorString ''no team'')\<rparr>)
            noArgs two_lines) = Some (ErrorString ''no team'')"
    "Print ''Successfully logged in as user: Jane Doe\<newline>''
            \<in> set (trace (snd (loginHandler
                (happy_env\<lparr>teams_SelectTeam := Inl (ErrorString ''no team'')\<rparr>) noArgs two_lines)))"
    by (simp_all add: eval_defs)
  have g: "fst (loginHandler (happy_env\<lparr>config_Save := last_save_fails\<rparr>) noArgs two_lines) =
            Some (ErrorString ''disk full'')"
    "Print ''Successfully logged in as user: Jane Doe\<newline>''
            \<in> set (trace (snd (loginHandler
                (happy_env\<lparr>config_Save := last_save_fails\<rparr>) noArgs two_lines)))"
    by (simp_all add: eval_defs last_save_fails_def)
  have f': "exit_status (fst (loginHandler
          (happy_env\<lparr>teams_SelectTeam := Inl (ErrorString ''no team'')\<rparr>) noArgs two_lines)) = 1"
    by (simp only: f(1) exit_status.simps)
  have g': "exit_status (fst (loginHandler (happy_env\<lparr>config_Save := last_save_fails\<rparr>)
          noArgs two_lines)) = 1"
    by (simp only: g(1) exit_status.simps)
  show ?thesis
    apply (intro conjI)
    apply (rule a)
    apply (rule b)
    apply (rule c)
    using d e apply blast
    apply (rule f(1))
    apply (rule f')
    apply (rule f(2))
    apply (rule g(1))
    apply (rule g')
    apply (rule g(2))
    done
qed

theorem success_line_before_team_witness:
  "fst (run (acquire_steps (happy_env\<lparr>client_GetCurrentUser := Inr \<lparr>Name = ''John Roe''\<rparr>,
          teams_SelectTeam := Inl (ErrorString ''no team'')\<rparr>) noArgs)
        (load_step (happy_env\<lparr>client_GetCurrentUser := Inr \<lparr>Name = ''John Roe''\<rparr>,
          teams_SelectTeam := Inl (ErrorString ''no team'')\<rparr>) two_lines)) = None
   \<and> fst (loginHandler (happy_env\<lparr>client_GetCurrentUser := Inr \<lparr>Name = ''John Roe''\<rparr>,
          teams_SelectTeam := Inl (ErrorString ''no team'')\<rparr>) noArgs two_lines) =
       Some (ErrorString ''no team'')
   \<and> exit_status (fst (loginHandler (happy_env\<lparr>client_GetCurrentUser := Inr \<lparr>Name = ''John Roe''\<rparr>,
          teams_SelectTeam := Inl (ErrorString ''no team'')\<rparr>) noArgs two_lines)) = 1
   \<and> drop 8 (trace (snd (loginHandler (happy_env\<lparr>client_GetCurrentUser := Inr \<lparr>Name = ''John Roe''\<rparr>,
          teams_SelectTeam := Inl (ErrorString ''no team'')\<rparr>) noArgs two_lines))) =
       [Connect, GetCurrentUser, Print ''Successfully logged in as user: John Roe\<newline>'',
        SelectTeam]"
proof -
  let ?E = "happy_env\<lparr>client_GetCurrentUser := Inr \<lparr>Name = ''John Roe''\<rparr>,
          teams_SelectTeam := Inl (ErrorString ''no team'')\<rparr>"
  let ?s1 = "snd (run (acquire_steps ?E noArgs) (load_step ?E two_lines))"
  have h0: "fst (run (acquire_steps ?E noArgs) (load_step ?E two_lines)) = None"
    by (simp add: eval_defs)
  then have h1: "run (acquire_steps ?E noArgs) (load_step ?E two_lines) = (None, ?s1)"
    by (metis prod.collapse)
  have h2: "client_Connect ?E = None"
    by (simp add: happy_env_def)
  have h3: "client_GetCurrentUser ?E = Inr \<lparr>Name = ''John Roe''\<rparr>"
    by simp
  have t: "TeamID (cfg ?s1) = ''''" "teams_SelectTeam ?E = Inl (ErrorString ''no team'')"
    "length (trace ?s1) = 8"
    by (simp_all add: eval_defs)
  from success_line_before_team [OF h1 h2 h3] t have
    "loginHandler ?E noArgs two_lines =
       (Some (ErrorString ''no team''),
        ?s1\<lparr>trace := trace ?s1 @ [Connect, GetCurrentUser,
           Print ''Successfully logged in as user: John Roe\<newline>'', SelectTeam]\<rparr>)"
    by simp
  with h0 t(3) show ?thesis by simp
qed

end
